theory Spec2Isabelle
  imports Main
begin

section \<open>Python values, strings and dictionaries\<close>

text \<open>
  The record store and the research cache of \<^verbatim>\<open>app/services/data_service.py\<close>.
  A Python \<^verbatim>\<open>str\<close> is a \<^typ>\<open>string\<close> whose characters stand for the code points
  below 256; \<^verbatim>\<open>str.lower\<close> and \<^verbatim>\<open>str.strip\<close> are given on these code points.
  An exception is a value of \<open>exn\<close>, and a call that may raise returns \<open>exn + 'a\<close>.
\<close>

datatype exn = KeyError | AttributeError | TypeError | ValueError | OSError

text \<open>
  The values the code meets in a dictionary: \<^verbatim>\<open>None\<close>, a string, or a list of strings
  (the surplus cells \<^verbatim>\<open>csv.DictReader\<close> stores under the key \<^verbatim>\<open>None\<close>; a JSON array
  in a candidate).
\<close>

datatype pyval = PNone | PStr string | PList "string list"

text \<open>A key is a column name, or \<^verbatim>\<open>None\<close> (the \<^verbatim>\<open>restkey\<close> of \<^verbatim>\<open>csv.DictReader\<close>).\<close>

type_synonym pykey = "string option"

text \<open>A \<^verbatim>\<open>dict\<close> keeps its keys in insertion order.\<close>

type_synonym pydict = "(pykey \<times> pyval) list"

definition bind_exn :: "exn + 'a \<Rightarrow> ('a \<Rightarrow> exn + 'b) \<Rightarrow> exn + 'b" where
  "bind_exn r f = (case r of Inl e \<Rightarrow> Inl e | Inr v \<Rightarrow> f v)"

fun truthy :: "pyval \<Rightarrow> bool" where
  "truthy PNone = False"
| "truthy (PStr s) = (s \<noteq> [])"
| "truthy (PList xs) = (xs \<noteq> [])"

definition isspace :: "char \<Rightarrow> bool" where
  "isspace c = (let n = (of_char c :: nat) in
     (9 \<le> n \<and> n \<le> 13) \<or> (28 \<le> n \<and> n \<le> 32) \<or> n = 133 \<or> n = 160)"

definition strip :: "string \<Rightarrow> string" where
  "strip s = rev (dropWhile isspace (rev (dropWhile isspace s)))"

definition lower_char :: "char \<Rightarrow> char" where
  "lower_char c = (let n = (of_char c :: nat) in
     if (65 \<le> n \<and> n \<le> 90) \<or> (192 \<le> n \<and> n \<le> 214) \<or> (216 \<le> n \<and> n \<le> 222)
     then char_of (n + 32) else c)"

definition lower :: "string \<Rightarrow> string" where
  "lower s = map lower_char s"

text \<open>\<^verbatim>\<open>v.strip()\<close> and \<^verbatim>\<open>v.lower()\<close>: only a string has the method.\<close>

fun py_strip :: "pyval \<Rightarrow> exn + string" where
  "py_strip (PStr s) = Inr (strip s)"
| "py_strip PNone = Inl AttributeError"
| "py_strip (PList xs) = Inl AttributeError"

fun py_lower :: "pyval \<Rightarrow> exn + string" where
  "py_lower (PStr s) = Inr (lower s)"
| "py_lower PNone = Inl AttributeError"
| "py_lower (PList xs) = Inl AttributeError"

text \<open>\<^verbatim>\<open>repr\<close> of a string and \<^verbatim>\<open>str\<close> of a list of strings, as the csv writer
  formats a cell that is neither \<^verbatim>\<open>None\<close> nor a string.\<close>

definition hex2 :: "nat \<Rightarrow> string" where
  "hex2 n = [''0123456789abcdef'' ! ((n div 16) mod 16), ''0123456789abcdef'' ! (n mod 16)]"

definition repr_char :: "char \<Rightarrow> char \<Rightarrow> string" where
  "repr_char q c = (let n = (of_char c :: nat) in
     if c = q \<or> n = 92 then [CHR 0x5C, c]
     else if n = 9 then [CHR 0x5C, CHR ''t'']
     else if n = 10 then [CHR 0x5C, CHR ''n'']
     else if n = 13 then [CHR 0x5C, CHR ''r'']
     else if n < 32 \<or> (127 \<le> n \<and> n \<le> 160) \<or> n = 173 then [CHR 0x5C, CHR ''x''] @ hex2 n
     else [c])"

definition py_repr :: "string \<Rightarrow> string" where
  "py_repr s = (let q = (if CHR 0x27 \<in> set s \<and> CHR 0x22 \<notin> set s then CHR 0x22 else CHR 0x27)
     in [q] @ concat (map (repr_char q) s) @ [q])"

fun join_with :: "string \<Rightarrow> string list \<Rightarrow> string" where
  "join_with sep [] = []"
| "join_with sep [x] = x"
| "join_with sep (x # y # ys) = x @ sep @ join_with sep (y # ys)"

definition py_str_list :: "string list \<Rightarrow> string" where
  "py_str_list xs = ''['' @ join_with '', '' (map py_repr xs) @ '']''"

subsection \<open>Dictionary operations\<close>

text \<open>\<^verbatim>\<open>d[k] = v\<close>: an existing key keeps its place, a new key goes last.\<close>

fun setitem :: "('k \<times> 'v) list \<Rightarrow> 'k \<Rightarrow> 'v \<Rightarrow> ('k \<times> 'v) list" where
  "setitem [] k v = [(k, v)]"
| "setitem (p # ps) k v = (if fst p = k then (k, v) # ps else p # setitem ps k v)"

text \<open>\<^verbatim>\<open>k in d\<close>, \<^verbatim>\<open>d[k]\<close> (raises \<^verbatim>\<open>KeyError\<close>) and \<^verbatim>\<open>d.get(k, default)\<close> for a column name.\<close>

definition has_key :: "pydict \<Rightarrow> string \<Rightarrow> bool" where
  "has_key d k = (map_of d (Some k) \<noteq> None)"

definition getitem :: "pydict \<Rightarrow> string \<Rightarrow> exn + pyval" where
  "getitem d k = (case map_of d (Some k) of None \<Rightarrow> Inl KeyError | Some v \<Rightarrow> Inr v)"

definition dict_get :: "pydict \<Rightarrow> string \<Rightarrow> pyval \<Rightarrow> pyval" where
  "dict_get d k dflt = (case map_of d (Some k) of None \<Rightarrow> dflt | Some v \<Rightarrow> v)"

section \<open>The csv module\<close>

text \<open>
  The store file is held as its parsed lines, the header line first; a blank line is
  \<open>[]\<close>. Quoting and encoding are the csv module's and are not modelled.
\<close>

definition fieldnames :: "string list" where
  "fieldnames = [''title'', ''company'', ''status'', ''date'', ''research'']"

text \<open>One row of \<^verbatim>\<open>csv.DictReader\<close>: \<^verbatim>\<open>dict(zip(fieldnames, row))\<close>, surplus cells
  under the key \<^verbatim>\<open>None\<close>, missing cells as \<^verbatim>\<open>None\<close>.\<close>

definition row_dict :: "string list \<Rightarrow> string list \<Rightarrow> pydict" where
  "row_dict hdr row =
     (let d = foldl (\<lambda>d (k, v). setitem d (Some k) (PStr v)) [] (zip hdr row) in
      if length hdr < length row then setitem d None (PList (drop (length hdr) row))
      else foldl (\<lambda>d k. setitem d (Some k) PNone) d (drop (length row) hdr))"

text \<open>\<^verbatim>\<open>csv.DictReader(f)\<close>: the first line gives the field names, blank lines are skipped.\<close>

fun dict_reader :: "string list list \<Rightarrow> pydict list" where
  "dict_reader [] = []"
| "dict_reader (hdr # rows) = map (row_dict hdr) (filter (\<lambda>r. r \<noteq> []) rows)"

fun cell_text :: "pyval \<Rightarrow> string" where
  "cell_text PNone = []"
| "cell_text (PStr s) = s"
| "cell_text (PList xs) = py_str_list xs"

text \<open>\<^verbatim>\<open>DictWriter._dict_to_list\<close> with \<^verbatim>\<open>extrasaction='raise'\<close> and \<^verbatim>\<open>restval=''\<close>.\<close>

definition dict_to_list :: "pydict \<Rightarrow> exn + string list" where
  "dict_to_list d =
     (if \<exists>k \<in> set (map fst d). k \<notin> set (map Some fieldnames) then Inl ValueError
      else Inr (map (\<lambda>f. cell_text (dict_get d f (PStr []))) fieldnames))"

section \<open>The files and the collaborators\<close>

text \<open>
  \<open>csv_file\<close> is the store file (\<open>None\<close>: it does not exist), as the lines that
  \<^verbatim>\<open>csv.reader\<close> finds in it. \<open>csv_closed\<close> says that the file is empty or ends with a
  line terminator outside a quoted field, so that text written at its end begins a new
  line; a file that ends in the middle of a line, or inside an open quote, is not
  closed. \<open>research_dir\<close> maps a safe company file name to the characters of its note.
  Three logs record what was done, oldest first: \<open>csv_appends\<close> lists the rows that
  \<^verbatim>\<open>writerow\<close> wrote at the end of the store file in append mode, \<open>generator_calls\<close>
  the companies \<^verbatim>\<open>generate_company_research\<close> was called with, and
  \<open>research_lookups\<close> the arguments of \<^verbatim>\<open>_get_company_research\<close>.
\<close>

record world =
  csv_file :: "string list list option"
  csv_closed :: bool
  csv_appends :: "string list list"
  research_dir :: "string \<Rightarrow> string option"
  generator_calls :: "string list"
  research_lookups :: "pyval list"

text \<open>The lines of the store file; a missing file has none.\<close>

definition store_lines :: "world \<Rightarrow> string list list" where
  "store_lines w = (case csv_file w of None \<Rightarrow> [] | Some ls \<Rightarrow> ls)"

text \<open>Text written at the end of the store file begins a new line: the file is closed,
  or it does not exist and \<^verbatim>\<open>open(csv_file, 'a')\<close> creates it empty.\<close>

definition tail_closed :: "world \<Rightarrow> bool" where
  "tail_closed w = (csv_file w = None \<or> csv_closed w)"

text \<open>
  What the code does not decide: \<open>gen_research n c\<close> is what the generator returns when
  it is called with \<open>c\<close> after \<open>n\<close> earlier calls (\<open>None\<close> when it fails); \<open>timestamp\<close> is
  the formatted clock; \<open>set_iter\<close> is the order in which a \<^verbatim>\<open>set\<close> is iterated;
  \<open>glue ls cells\<close> is what becomes of a store file with the lines \<open>ls\<close> that is not
  closed when the row \<open>cells\<close> is written at its end: the lines the reader finds then
  (the row runs on from the last line, which depends on the characters of that line),
  and whether the file is closed afterwards. The other fields say which \<^verbatim>\<open>open\<close> calls
  the operating system refuses.
\<close>

record env =
  gen_research :: "nat \<Rightarrow> string \<Rightarrow> string option"
  timestamp :: string
  set_iter :: "pyval list \<Rightarrow> pyval list"
  glue :: "string list list \<Rightarrow> string list \<Rightarrow> string list list \<times> bool"
  csv_read_fails :: bool
  csv_append_fails :: bool
  csv_write_fails :: bool
  note_read_fails :: "string \<Rightarrow> bool"
  note_write_fails :: "string \<Rightarrow> bool"

section \<open>JobApplicationTracker\<close>

text \<open>\<^verbatim>\<open>_ensure_files_exist\<close> (and \<^verbatim>\<open>__init__\<close>, which only calls it): no handler.\<close>

definition ensure_files_exist :: "env \<Rightarrow> world \<Rightarrow> exn + world" where
  "ensure_files_exist env w =
     (if csv_file w = None then
        (if csv_write_fails env then Inl OSError
         else Inr (w\<lparr>csv_file := Some [fieldnames], csv_closed := True\<rparr>))
      else Inr w)"

text \<open>\<^verbatim>\<open>get_all_applications\<close>: the body of the \<^verbatim>\<open>try\<close>, then the handler.\<close>

definition get_all_applications_body :: "env \<Rightarrow> world \<Rightarrow> exn + pydict list" where
  "get_all_applications_body env w =
     (if csv_read_fails env then Inl OSError
      else case csv_file w of None \<Rightarrow> Inl OSError | Some ls \<Rightarrow> Inr (dict_reader ls))"

definition get_all_applications :: "env \<Rightarrow> world \<Rightarrow> pydict list" where
  "get_all_applications env w =
     (case get_all_applications_body env w of Inl e \<Rightarrow> [] | Inr apps \<Rightarrow> apps)"

text \<open>The comparison of \<^verbatim>\<open>_is_duplicate\<close>, in the order Python evaluates it.\<close>

definition same_identity :: "pydict \<Rightarrow> pydict \<Rightarrow> exn + bool" where
  "same_identity app data =
     bind_exn (getitem app ''title'') (\<lambda>t. bind_exn (py_lower t) (\<lambda>tl.
     bind_exn (getitem data ''title'') (\<lambda>dt. bind_exn (py_lower dt) (\<lambda>dtl.
       if tl \<noteq> dtl then Inr False
       else
         bind_exn (getitem app ''company'') (\<lambda>c. bind_exn (py_lower c) (\<lambda>cl.
         bind_exn (getitem data ''company'') (\<lambda>dc. bind_exn (py_lower dc) (\<lambda>dcl.
           Inr (cl = dcl)))))))))"

fun duplicate_scan :: "pydict list \<Rightarrow> pydict \<Rightarrow> exn + bool" where
  "duplicate_scan [] data = Inr False"
| "duplicate_scan (app # apps) data =
     (case same_identity app data of
        Inl e \<Rightarrow> Inl e
      | Inr True \<Rightarrow> Inr True
      | Inr False \<Rightarrow> duplicate_scan apps data)"

definition is_duplicate :: "env \<Rightarrow> world \<Rightarrow> pydict \<Rightarrow> bool" where
  "is_duplicate env w data =
     (case duplicate_scan (get_all_applications env w) data of
        Inl e \<Rightarrow> False
      | Inr b \<Rightarrow> b)"

subsection \<open>The research cache\<close>

definition safe_filename :: "string \<Rightarrow> string" where
  "safe_filename company = map (\<lambda>c. if c = CHR ''/'' \<or> c = CHR 0x5C then CHR ''_'' else c) company"

text \<open>
  A note is opened for reading in text mode with the default \<^verbatim>\<open>newline=None\<close>: a
  carriage return followed by a line feed, and a carriage return alone, are read as one
  line feed. \<^verbatim>\<open>readlines\<close> then ends a line after each line feed. (A note is written in
  text mode too; on a POSIX system the characters are written as they are.)
\<close>

fun universal_newlines :: "string \<Rightarrow> string" where
  "universal_newlines [] = []"
| "universal_newlines [c] = [if c = CHR 0x0D then CHR 0x0A else c]"
| "universal_newlines (c # d # cs) =
     (if c = CHR 0x0D \<and> d = CHR 0x0A then CHR 0x0A # universal_newlines cs
      else if c = CHR 0x0D then CHR 0x0A # universal_newlines (d # cs)
      else c # universal_newlines (d # cs))"

fun readlines :: "string \<Rightarrow> string list" where
  "readlines [] = []"
| "readlines (c # cs) =
     (if c = CHR 0x0A then [c] # readlines cs
      else (case readlines cs of [] \<Rightarrow> [[c]] | l # ls \<Rightarrow> (c # l) # ls))"

definition note_text :: "env \<Rightarrow> string \<Rightarrow> string \<Rightarrow> string" where
  "note_text env company research =
     ''Company Research for '' @ company @ [CHR 0x0A] @
     ''Date Generated: '' @ timestamp env @ [CHR 0x0A, CHR 0x0A] @ research"

text \<open>The call of the generator and the write of the note, shared by
  \<^verbatim>\<open>_get_company_research\<close> and \<^verbatim>\<open>generate_research_for_all_companies\<close>: the result is
  the research text when a note was written, \<open>None\<close> when the generator gave nothing.\<close>

definition generate_and_save :: "env \<Rightarrow> world \<Rightarrow> string \<Rightarrow> (exn + string option) \<times> world" where
  "generate_and_save env w company =
     (let w1 = w\<lparr>generator_calls := generator_calls w @ [company]\<rparr> in
      case gen_research env (length (generator_calls w)) company of
        None \<Rightarrow> (Inr None, w1)
      | Some research \<Rightarrow>
          if research = [] then (Inr None, w1)
          else if note_write_fails env (safe_filename company) then (Inl OSError, w1)
          else (Inr (Some research),
                w1\<lparr>research_dir := (research_dir w1)
                      (safe_filename company \<mapsto> note_text env company research)\<rparr>))"

definition get_company_research_body :: "env \<Rightarrow> world \<Rightarrow> pyval \<Rightarrow> (exn + string) \<times> world" where
  "get_company_research_body env w company =
     (if \<not> truthy company then (Inr ''No company name provided'', w)
      else case company of
        PStr name \<Rightarrow>
          if strip name = [] then (Inr ''No company name provided'', w)
          else
            (case research_dir w (safe_filename name) of
               Some text \<Rightarrow>
                 if note_read_fails env (safe_filename name) then (Inl OSError, w)
                 else if length (readlines (universal_newlines text)) > 3
                 then (Inr (strip (concat (drop 3 (readlines (universal_newlines text))))), w)
                 else (case generate_and_save env w name of
                         (Inl e, w1) \<Rightarrow> (Inl e, w1)
                       | (Inr (Some research), w1) \<Rightarrow> (Inr research, w1)
                       | (Inr None, w1) \<Rightarrow> (Inr [], w1))
             | None \<Rightarrow>
                 (case generate_and_save env w name of
                    (Inl e, w1) \<Rightarrow> (Inl e, w1)
                  | (Inr (Some research), w1) \<Rightarrow> (Inr research, w1)
                  | (Inr None, w1) \<Rightarrow> (Inr [], w1)))
      | _ \<Rightarrow> (Inl AttributeError, w))"

definition get_company_research :: "env \<Rightarrow> world \<Rightarrow> pyval \<Rightarrow> string \<times> world" where
  "get_company_research env w company =
     (case get_company_research_body env
             (w\<lparr>research_lookups := research_lookups w @ [company]\<rparr>) company of
        (Inl e, w1) \<Rightarrow> ([], w1)
      | (Inr research, w1) \<Rightarrow> (research, w1))"

subsection \<open>Saving one application\<close>

definition required_fields :: "string list" where
  "required_fields = [''title'', ''company'', ''status'', ''date'']"

text \<open>
  \<^verbatim>\<open>open(csv_file, 'a')\<close> creates a missing file; \<^verbatim>\<open>writerow\<close> may then refuse the
  dictionary, before it writes. Otherwise it writes the row and a line terminator at
  the end of the file: a new last line when the file was closed, and what \<open>glue\<close> says
  when it was not.
\<close>

definition append_row :: "env \<Rightarrow> world \<Rightarrow> pydict \<Rightarrow> (exn + bool) \<times> world" where
  "append_row env w d =
     (if csv_append_fails env then (Inl OSError, w)
      else
        (case dict_to_list d of
           Inl e \<Rightarrow> (Inl e, w\<lparr>csv_file := Some (store_lines w), csv_closed := tail_closed w\<rparr>)
         | Inr cells \<Rightarrow>
             if tail_closed w
             then (Inr True, w\<lparr>csv_file := Some (store_lines w @ [cells]), csv_closed := True,
                               csv_appends := csv_appends w @ [cells]\<rparr>)
             else (Inr True, w\<lparr>csv_file := Some (fst (glue env (store_lines w) cells)),
                               csv_closed := snd (glue env (store_lines w) cells),
                               csv_appends := csv_appends w @ [cells]\<rparr>)))"

definition save_to_csv_body :: "env \<Rightarrow> world \<Rightarrow> pydict \<Rightarrow> (exn + bool) \<times> world" where
  "save_to_csv_body env w data =
     (if \<not> (\<forall>f \<in> set required_fields. has_key data f) then (Inr False, w)
      else case getitem data ''company'' of
        Inl e \<Rightarrow> (Inl e, w)
      | Inr company \<Rightarrow>
          if \<not> truthy company then (Inr False, w)
          else (case py_strip company of
            Inl e \<Rightarrow> (Inl e, w)
          | Inr s \<Rightarrow>
              if s = [] then (Inr False, w)
              else if is_duplicate env w data then (Inr True, w)
              else
                (let (research, w1) = get_company_research env w company in
                 append_row env w1 (setitem data (Some ''research'') (PStr research)))))"

definition save_to_csv :: "env \<Rightarrow> world \<Rightarrow> pydict \<Rightarrow> bool \<times> world" where
  "save_to_csv env w data =
     (case save_to_csv_body env w data of
        (Inl e, w1) \<Rightarrow> (False, w1)
      | (Inr ok, w1) \<Rightarrow> (ok, w1))"

subsection \<open>Removing duplicates\<close>

type_synonym identity = "string \<times> string"

definition app_key :: "pydict \<Rightarrow> exn + identity" where
  "app_key app =
     bind_exn (getitem app ''title'') (\<lambda>t. bind_exn (py_lower t) (\<lambda>tl.
     bind_exn (getitem app ''company'') (\<lambda>c. bind_exn (py_lower c) (\<lambda>cl.
       Inr (tl, cl)))))"

text \<open>The first loop of \<^verbatim>\<open>remove_duplicates\<close>, with \<^verbatim>\<open>unique_apps\<close> and
  \<^verbatim>\<open>invalid_apps\<close> as accumulators.\<close>

fun dedup_scan :: "pydict list \<Rightarrow> (identity \<times> pydict) list \<Rightarrow> pydict list \<Rightarrow>
    exn + ((identity \<times> pydict) list \<times> pydict list)" where
  "dedup_scan [] unique invalid = Inr (unique, invalid)"
| "dedup_scan (app # apps) unique invalid =
     (if \<not> truthy (dict_get app ''company'' PNone) then dedup_scan apps unique (invalid @ [app])
      else case py_strip (dict_get app ''company'' (PStr [])) of
        Inl e \<Rightarrow> Inl e
      | Inr s \<Rightarrow>
          if s = [] then dedup_scan apps unique (invalid @ [app])
          else (case app_key app of
            Inl e \<Rightarrow> Inl e
          | Inr k \<Rightarrow> dedup_scan apps (setitem unique k app) invalid))"

text \<open>The second loop: the rows written so far are \<open>out\<close>; an exception leaves them in
  the file, which \<^verbatim>\<open>open(csv_file, 'w')\<close> has emptied. Every line is written with its
  terminator, so the file is closed afterwards.\<close>

fun write_unique :: "env \<Rightarrow> pydict list \<Rightarrow> string list list \<Rightarrow> world \<Rightarrow>
    (exn + unit) \<times> string list list \<times> world" where
  "write_unique env [] out w = (Inr (), out, w)"
| "write_unique env (app # apps) out w =
     (if has_key app ''research'' then
        (case dict_to_list app of
           Inl e \<Rightarrow> (Inl e, out, w)
         | Inr cells \<Rightarrow> write_unique env apps (out @ [cells]) w)
      else
        (case getitem app ''company'' of
           Inl e \<Rightarrow> (Inl e, out, w)
         | Inr company \<Rightarrow>
             (let (research, w1) = get_company_research env w company in
              case dict_to_list (setitem app (Some ''research'') (PStr research)) of
                Inl e \<Rightarrow> (Inl e, out, w1)
              | Inr cells \<Rightarrow> write_unique env apps (out @ [cells]) w1)))"

definition remove_duplicates_body :: "env \<Rightarrow> world \<Rightarrow> (exn + bool) \<times> world" where
  "remove_duplicates_body env w =
     (let applications = get_all_applications env w in
      if applications = [] then (Inr True, w)
      else case dedup_scan applications [] [] of
        Inl e \<Rightarrow> (Inl e, w)
      | Inr (unique_apps, invalid_apps) \<Rightarrow>
          if csv_write_fails env then (Inl OSError, w)
          else (case write_unique env (map snd unique_apps) [] w of
            (Inl e, out, w1) \<Rightarrow> (Inl e, w1\<lparr>csv_file := Some (fieldnames # out), csv_closed := True\<rparr>)
          | (Inr u, out, w1) \<Rightarrow> (Inr True, w1\<lparr>csv_file := Some (fieldnames # out), csv_closed := True\<rparr>)))"

definition remove_duplicates :: "env \<Rightarrow> world \<Rightarrow> bool \<times> world" where
  "remove_duplicates env w =
     (case remove_duplicates_body env w of
        (Inl e, w1) \<Rightarrow> (False, w1)
      | (Inr ok, w1) \<Rightarrow> (ok, w1))"

section \<open>generate_research_for_all_companies\<close>

text \<open>\<^verbatim>\<open>set(app['company'] for app in applications)\<close>: a missing column raises
  \<^verbatim>\<open>KeyError\<close>, a list cannot be hashed.\<close>

fun companies_of :: "pydict list \<Rightarrow> exn + pyval list" where
  "companies_of [] = Inr []"
| "companies_of (app # apps) =
     (case getitem app ''company'' of
        Inl e \<Rightarrow> Inl e
      | Inr (PList xs) \<Rightarrow> Inl TypeError
      | Inr c \<Rightarrow> (case companies_of apps of Inl e \<Rightarrow> Inl e | Inr cs \<Rightarrow> Inr (c # cs)))"

fun research_loop :: "env \<Rightarrow> pyval list \<Rightarrow> nat \<Rightarrow> world \<Rightarrow> (exn + nat) \<times> world" where
  "research_loop env [] n w = (Inr n, w)"
| "research_loop env (company # cs) n w =
     (if \<not> truthy company then research_loop env cs n w
      else case company of
        PStr name \<Rightarrow>
          if strip name = [] then research_loop env cs n w
          else if research_dir w (safe_filename name) \<noteq> None then research_loop env cs n w
          else (case generate_and_save env w name of
                  (Inl e, w1) \<Rightarrow> (Inl e, w1)
                | (Inr (Some research), w1) \<Rightarrow> research_loop env cs (n + 1) w1
                | (Inr None, w1) \<Rightarrow> research_loop env cs n w1)
      | _ \<Rightarrow> (Inl AttributeError, w))"

definition generate_research_for_all_companies_body :: "env \<Rightarrow> world \<Rightarrow> (exn + nat) \<times> world" where
  "generate_research_for_all_companies_body env w =
     (case ensure_files_exist env w of
        Inl e \<Rightarrow> (Inl e, w)
      | Inr w0 \<Rightarrow>
          (let applications = get_all_applications env w0 in
           if applications = [] then (Inr 0, w0)
           else case companies_of applications of
             Inl e \<Rightarrow> (Inl e, w0)
           | Inr cs \<Rightarrow> research_loop env (set_iter env (remdups cs)) 0 w0))"

definition generate_research_for_all_companies :: "env \<Rightarrow> world \<Rightarrow> nat \<times> world" where
  "generate_research_for_all_companies env w =
     (case generate_research_for_all_companies_body env w of
        (Inl e, w1) \<Rightarrow> (0, w1)
      | (Inr n, w1) \<Rightarrow> (n, w1))"


section \<open>Properties of records\<close>

text \<open>
  A record is valid for \<^verbatim>\<open>remove_duplicates\<close> when its company is a string that is not
  blank after trimming: these are the records its first loop keeps.
\<close>

definition valid_record :: "pydict \<Rightarrow> bool" where
  "valid_record app =
     (case map_of app (Some ''company'') of Some (PStr c) \<Rightarrow> strip c \<noteq> [] | _ \<Rightarrow> False)"

text \<open>
  The line the second loop writes for a record: its cells in column order, the research
  column filled by \<^verbatim>\<open>_get_company_research\<close> when the record has none.
\<close>

definition written :: "pydict \<Rightarrow> string list \<Rightarrow> bool" where
  "written app cells =
     (dict_to_list app = Inr cells \<or>
      (\<not> has_key app ''research'' \<and>
       (\<exists>research. dict_to_list (setitem app (Some ''research'') (PStr research)) = Inr cells)))"



section \<open>Example worlds\<close>

text \<open>An environment in which no file operation is refused and the generator answers
  every company; a store file with the program's header and the given lines; a candidate
  with the four required fields.\<close>

definition env_ok :: env where
  "env_ok = \<lparr>gen_research = (\<lambda>n c. Some (''About '' @ c)), timestamp = ''2024-03-01 09:00:00'',
     set_iter = (\<lambda>cs. cs), glue = (\<lambda>ls cells. (ls, False)),
     csv_read_fails = False, csv_append_fails = False,
     csv_write_fails = False, note_read_fails = (\<lambda>f. False), note_write_fails = (\<lambda>f. False)\<rparr>"

definition store_of :: "string list list \<Rightarrow> world" where
  "store_of rows = \<lparr>csv_file = Some (fieldnames # rows), csv_closed = True,
     csv_appends = [], research_dir = (\<lambda>f. None),
     generator_calls = [], research_lookups = []\<rparr>"

definition candidate :: "string \<Rightarrow> string \<Rightarrow> string \<Rightarrow> string \<Rightarrow> pydict" where
  "candidate t c s d = [(Some ''title'', PStr t), (Some ''company'', PStr c),
     (Some ''status'', PStr s), (Some ''date'', PStr d)]"

text \<open>
  A store in which the first and the third line have the same identity (they differ in
  case, status, date and research) and the second line has a blank company.
\<close>

definition store_dups :: world where
  "store_dups = store_of [[''A'', ''Co'', ''Submitted'', ''2024-01-01'', ''''],
                          [''B'', ''  '', ''Submitted'', ''2024-01-15'', ''note''],
                          [''a'', ''CO'', ''Interview'', ''2024-02-01'', ''seen'']]"








definition store_short_line :: world where
  "store_short_line = store_of [[''engineer''],
     [''Engineer'', ''Acme'', ''Submitted'', ''2024-01-01'', '''']]"

definition note_crlf :: string where
  "note_crlf = ''Company Research for Acme'' @ [CHR 0x0A] @
     ''Date Generated: 2024-03-01 09:00:00'' @ [CHR 0x0A, CHR 0x0A] @
     ''line1'' @ [CHR 0x0D, CHR 0x0A] @ ''line2'' @ [CHR 0x0D] @ ''line3''"

definition store_note :: world where
  "store_note = (store_of [])\<lparr>research_dir := (\<lambda>f. None)(''Acme'' \<mapsto> note_crlf)\<rparr>"

text \<open>The defining equations used to evaluate the operations on concrete inputs.\<close>

lemmas eval_defs = env_ok_def store_of_def candidate_def save_to_csv_def save_to_csv_body_def
  remove_duplicates_def remove_duplicates_body_def get_all_applications_def
  get_all_applications_body_def fieldnames_def required_fields_def row_dict_def dict_get_def
  app_key_def getitem_def has_key_def bind_exn_def lower_def lower_char_def strip_def isspace_def
  dict_to_list_def is_duplicate_def same_identity_def get_company_research_def
  get_company_research_body_def generate_and_save_def append_row_def store_lines_def
  tail_closed_def
  safe_filename_def note_text_def ensure_files_exist_def char_of_def bit_0 bit_Suc
  generate_research_for_all_companies_def generate_research_for_all_companies_body_def

section \<open>Saving a candidate\<close>

text \<open>
  Claim C5. A candidate whose company is a string that is empty, or blank after
  trimming, is rejected: \<open>save_to_csv\<close> returns \<open>False\<close> and the world is the one it
  started from, so the store file is not touched, no note is written, the generator is
  not called and \<open>_get_company_research\<close> is not called.
\<close>

theorem save_blank_company_rejected:
  assumes "getitem data ''company'' = Inr (PStr c)" and "strip c = []"
  shows "save_to_csv env w data = (False, w)"
  using assms by (simp add: save_to_csv_def save_to_csv_body_def)

text \<open>Claim C5 at a candidate whose company is two spaces.\<close>

theorem save_blank_company_rejected_witness:
  "getitem (candidate ''X'' ''  '' ''S'' ''D'') ''company'' = Inr (PStr ''  '') \<and> strip ''  '' = [] \<and>
   save_to_csv env_ok (store_of []) (candidate ''X'' ''  '' ''S'' ''D'') = (False, store_of [])"
  using save_blank_company_rejected [of "candidate ''X'' ''  '' ''S'' ''D''" "''  ''" env_ok "store_of []"]
  by (simp add: candidate_def getitem_def strip_def isspace_def)

section \<open>A failed read of the store\<close>

text \<open>
  Claim C6, amended. When the read at the start of \<open>remove_duplicates\<close> fails,
  \<open>get_all_applications\<close> has already turned the failure into the empty list, and
  \<open>remove_duplicates\<close> reports success with every file unchanged.
\<close>

theorem remove_duplicates_read_failure:
  assumes "get_all_applications_body env w = Inl e"
  shows "remove_duplicates env w = (True, w)"
  using assms by (simp add: remove_duplicates_def remove_duplicates_body_def get_all_applications_def)

text \<open>Claim C6, amended, at a store that cannot be read.\<close>

theorem remove_duplicates_read_failure_witness:
  "get_all_applications_body (env_ok\<lparr>csv_read_fails := True\<rparr>) (store_of [[''A'', ''Co'', ''S'', ''D'', '''']]) = Inl OSError \<and>
   remove_duplicates (env_ok\<lparr>csv_read_fails := True\<rparr>) (store_of [[''A'', ''Co'', ''S'', ''D'', '''']])
     = (True, store_of [[''A'', ''Co'', ''S'', ''D'', '''']])"
  using remove_duplicates_read_failure [of "env_ok\<lparr>csv_read_fails := True\<rparr>" "store_of [[''A'', ''Co'', ''S'', ''D'', '''']]" OSError]
  by (simp add: get_all_applications_body_def env_ok_def)

text \<open>Claim C6 as stated asks for a failure report; on an unreadable store that holds
  two records of one identity the result is \<open>True\<close>.\<close>

theorem remove_duplicates_read_failure_counterexample:
  "get_all_applications_body (env_ok\<lparr>csv_read_fails := True\<rparr>)
      (store_of [[''A'', ''Co'', ''Submitted'', ''2024-01-01'', ''''], [''A'', ''Co'', ''Interview'', ''2024-02-01'', '''']]) = Inl OSError \<and>
   fst (remove_duplicates (env_ok\<lparr>csv_read_fails := True\<rparr>)
      (store_of [[''A'', ''Co'', ''Submitted'', ''2024-01-01'', ''''], [''A'', ''Co'', ''Interview'', ''2024-02-01'', '''']])) = True"
  by (simp add: eval_defs)

section \<open>Auxiliary facts\<close>

lemma strip_Nil: "strip [] = []"
  by (simp add: strip_def)

lemma get_company_research_csv_file:
  "csv_file (snd (get_company_research env w c)) = csv_file w"
  by (auto simp: get_company_research_def get_company_research_body_def generate_and_save_def
      Let_def split: pyval.splits option.splits prod.splits sum.splits if_splits)

lemma get_company_research_store_lines:
  "store_lines (snd (get_company_research env w c)) = store_lines w"
  by (simp add: store_lines_def get_company_research_csv_file)


section \<open>Saving a duplicate\<close>

lemma same_identity_keys:
  assumes "app_key app = Inr k" and "app_key data = Inr k'"
  shows "same_identity app data = Inr (k = k')"
  using assms
  by (auto simp: app_key_def same_identity_def bind_exn_def split: sum.splits)

lemma duplicate_scan_finds:
  assumes "\<forall>app \<in> set apps. \<exists>k. app_key app = Inr k"
      and "app_key data = Inr k'"
      and "\<exists>app \<in> set apps. app_key app = Inr k'"
  shows "duplicate_scan apps data = Inr True"
  using assms
proof (induction apps)
  case Nil
  then show ?case by simp
next
  case (Cons a apps)
  then obtain k where k: "app_key a = Inr k" by auto
  show ?case
  proof (cases "k = k'")
    case True
    then show ?thesis using k Cons.prems(2) by (simp add: same_identity_keys)
  next
    case False
    then have "\<exists>app \<in> set apps. app_key app = Inr k'" using Cons.prems(3) k by auto
    then show ?thesis using Cons k False by (simp add: same_identity_keys)
  qed
qed

text \<open>Claim C1 as stated covers every candidate; a candidate with an empty company and
  the identity of a stored record is refused, not accepted.\<close>

theorem save_duplicate_blank_company_counterexample:
  "app_key (candidate ''X'' '''' ''Submitted'' ''2024-06-01'') = Inr (''x'', '''') \<and>
   map app_key (get_all_applications env_ok (store_of [[''x'', '''', ''Viewed'', ''2024-05-01'', '''']]))
     = [Inr (''x'', '''')] \<and>
   fst (save_to_csv env_ok (store_of [[''x'', '''', ''Viewed'', ''2024-05-01'', '''']])
     (candidate ''X'' '''' ''Submitted'' ''2024-06-01'')) = False"
  by (simp add: eval_defs)

text \<open>
  Claim C1, amended. When the store can be read and each of its records has a title and
  a company that are strings, a candidate with the four required fields and a company
  that is not blank, whose identity \<open>(lower title, lower company)\<close> is that of a stored
  record, is answered with \<open>True\<close> and the world unchanged: nothing is appended.
\<close>

theorem save_duplicate_is_noop_success:
  assumes "get_all_applications_body env w = Inr apps"
      and "\<forall>app \<in> set apps. \<exists>k. app_key app = Inr k"
      and "\<forall>f \<in> set required_fields. has_key data f"
      and "getitem data ''company'' = Inr (PStr c)" and "strip c \<noteq> []"
      and "app \<in> set apps" and "app_key app = Inr k" and "app_key data = Inr k"
  shows "save_to_csv env w data = (True, w)"
proof -
  have "c \<noteq> []" using assms(5) strip_Nil by auto
  moreover have "get_all_applications env w = apps"
    using assms(1) by (simp add: get_all_applications_def)
  moreover have "duplicate_scan apps data = Inr True"
    using duplicate_scan_finds [OF assms(2) assms(8)] assms(6,7) by auto
  ultimately show ?thesis
    using assms(3,4,5) by (simp add: save_to_csv_def save_to_csv_body_def is_duplicate_def)
qed

text \<open>Claim C1, amended, at the stored record (Engineer, Acme) and a candidate that
  differs in letter case, status and date.\<close>

theorem save_duplicate_is_noop_success_witness:
  "get_all_applications_body env_ok (store_of [[''Engineer'', ''Acme'', ''Submitted'', ''2024-01-01'', '''']])
     = Inr [row_dict fieldnames [''Engineer'', ''Acme'', ''Submitted'', ''2024-01-01'', '''']] \<and>
   app_key (row_dict fieldnames [''Engineer'', ''Acme'', ''Submitted'', ''2024-01-01'', '''']) = Inr (''engineer'', ''acme'') \<and>
   app_key (candidate ''ENGINEER'' ''acme'' ''Interview'' ''2024-02-01'') = Inr (''engineer'', ''acme'') \<and>
   save_to_csv env_ok (store_of [[''Engineer'', ''Acme'', ''Submitted'', ''2024-01-01'', '''']])
     (candidate ''ENGINEER'' ''acme'' ''Interview'' ''2024-02-01'')
     = (True, store_of [[''Engineer'', ''Acme'', ''Submitted'', ''2024-01-01'', '''']])"
proof -
  have a: "get_all_applications_body env_ok (store_of [[''Engineer'', ''Acme'', ''Submitted'', ''2024-01-01'', '''']])
     = Inr [row_dict fieldnames [''Engineer'', ''Acme'', ''Submitted'', ''2024-01-01'', '''']]"
    by (simp add: get_all_applications_body_def env_ok_def store_of_def)
  have b: "app_key (row_dict fieldnames [''Engineer'', ''Acme'', ''Submitted'', ''2024-01-01'', '''']) = Inr (''engineer'', ''acme'')"
    by (simp add: eval_defs)
  have c: "app_key (candidate ''ENGINEER'' ''acme'' ''Interview'' ''2024-02-01'') = Inr (''engineer'', ''acme'')"
    by (simp add: eval_defs)
  have d: "\<forall>f \<in> set required_fields. has_key (candidate ''ENGINEER'' ''acme'' ''Interview'' ''2024-02-01'') f"
    by (simp add: required_fields_def has_key_def candidate_def)
  have e: "getitem (candidate ''ENGINEER'' ''acme'' ''Interview'' ''2024-02-01'') ''company'' = Inr (PStr ''acme'')"
    by (simp add: getitem_def candidate_def)
  have f: "strip ''acme'' \<noteq> []" by (simp add: strip_def isspace_def)
  show ?thesis
    using a b c save_duplicate_is_noop_success [OF a _ d e f _ b c] by simp
qed

section \<open>Removing duplicates\<close>

text \<open>Facts about \<open>setitem\<close>, the two loops of \<open>remove_duplicates\<close> and the lines they
  write.\<close>

lemma map_of_setitem: "map_of (setitem d k v) k' = (if k' = k then Some v else map_of d k')"
  by (induction d) auto

lemma keys_setitem:
  "map fst (setitem d k v) = (if k \<in> set (map fst d) then map fst d else map fst d @ [k])"
  by (induction d) auto

lemma set_setitem: "set (setitem d k v) \<subseteq> insert (k, v) (set d)"
  by (induction d) auto

lemma setitem_fresh: "k \<notin> set (map fst d) \<Longrightarrow> setitem d k v = d @ [(k, v)]"
  by (induction d) auto

lemma dedup_scan_Cons:
  "dedup_scan (app # apps) U I =
     (if valid_record app then
        (case app_key app of Inl e \<Rightarrow> Inl e | Inr k \<Rightarrow> dedup_scan apps (setitem U k app) I)
      else if (\<exists>x xs. map_of app (Some ''company'') = Some (PList (x # xs)))
      then Inl AttributeError
      else dedup_scan apps U (I @ [app]))"
proof (cases "map_of app (Some ''company'')")
  case None
  then show ?thesis by (simp add: valid_record_def dict_get_def)
next
  case (Some v)
  show ?thesis
  proof (cases v)
    case PNone
    then show ?thesis using Some by (simp add: valid_record_def dict_get_def)
  next
    case (PStr c)
    then show ?thesis using Some strip_Nil
      by (cases "c = []") (auto simp: valid_record_def dict_get_def)
  next
    case (PList xs)
    then show ?thesis using Some
      by (cases xs) (auto simp: valid_record_def dict_get_def)
  qed
qed

declare dedup_scan.simps(2) [simp del]

lemma dedup_scan_inv:
  assumes "dedup_scan apps U I = Inr (U', I')"
      and "distinct (map fst U)"
      and "\<forall>(k, u) \<in> set U. app_key u = Inr k \<and> valid_record u"
  shows "distinct (map fst U') \<and> (\<forall>(k, u) \<in> set U'. app_key u = Inr k \<and> valid_record u)"
  using assms
proof (induction apps arbitrary: U I)
  case Nil
  then show ?case by simp
next
  case (Cons app apps)
  show ?case
  proof (cases "valid_record app")
    case True
    then obtain k where k: "app_key app = Inr k"
      using Cons.prems(1) by (auto simp: dedup_scan_Cons split: sum.splits)
    have scan: "dedup_scan apps (setitem U k app) I = Inr (U', I')"
      using Cons.prems(1) True k by (simp add: dedup_scan_Cons)
    have d: "distinct (map fst (setitem U k app))"
      using Cons.prems(2) by (simp add: keys_setitem)
    have i: "\<forall>(k', u) \<in> set (setitem U k app). app_key u = Inr k' \<and> valid_record u"
      using Cons.prems(3) True k set_setitem [of U k app] by auto
    show ?thesis by (rule Cons.IH [OF scan d i])
  next
    case False
    then have scan: "dedup_scan apps U (I @ [app]) = Inr (U', I')"
      using Cons.prems(1) by (simp add: dedup_scan_Cons split: if_splits)
    show ?thesis by (rule Cons.IH [OF scan Cons.prems(2) Cons.prems(3)])
  qed
qed

lemma row_dict_five:
  "row_dict fieldnames [a, b, c, d, e] =
     [(Some ''title'', PStr a), (Some ''company'', PStr b), (Some ''status'', PStr c),
      (Some ''date'', PStr d), (Some ''research'', PStr e)]"
  by (simp add: row_dict_def fieldnames_def)

lemma length_five: "length (xs :: 'a list) = 5 \<Longrightarrow> \<exists>a b c d e. xs = [a, b, c, d, e]"
  by (cases xs; simp; cases "tl xs"; simp; cases "tl (tl xs)"; simp; cases "tl (tl (tl xs))"; simp;
      cases "tl (tl (tl (tl xs)))"; simp)

lemma app_key_Inr:
  "app_key u = Inr k \<longleftrightarrow>
     (\<exists>t c. map_of u (Some ''title'') = Some (PStr t) \<and>
            map_of u (Some ''company'') = Some (PStr c) \<and> k = (lower t, lower c))"
proof (cases "map_of u (Some ''title'')")
  case None
  then show ?thesis by (simp add: app_key_def getitem_def bind_exn_def)
next
  case (Some tv)
  note tv = Some
  show ?thesis
  proof (cases "map_of u (Some ''company'')")
    case None
    then show ?thesis using tv
      by (cases tv) (auto simp: app_key_def getitem_def bind_exn_def)
  next
    case (Some cv)
    then show ?thesis using tv
      by (cases tv; cases cv) (auto simp: app_key_def getitem_def bind_exn_def)
  qed
qed

lemma five_facts:
  "app_key (row_dict fieldnames [a, b, c, d, e]) = Inr (lower a, lower b)"
  "valid_record (row_dict fieldnames [a, b, c, d, e]) = (strip b \<noteq> [])"
  "has_key (row_dict fieldnames [a, b, c, d, e]) ''research''"
  "dict_to_list (row_dict fieldnames [a, b, c, d, e]) = Inr [a, b, c, d, e]"
  unfolding row_dict_five
  by (simp_all add: app_key_Inr valid_record_def has_key_def dict_to_list_def
      fieldnames_def dict_get_def)

lemma written_row:
  assumes "written u row" and "app_key u = Inr k" and "valid_record u"
  shows "\<exists>a b c d e. row = [a, b, c, d, e] \<and> (lower a, lower b) = k \<and> strip b \<noteq> []"
proof -
  obtain t c where t: "map_of u (Some ''title'') = Some (PStr t)"
    and c: "map_of u (Some ''company'') = Some (PStr c)" and k: "k = (lower t, lower c)"
    using assms(2) by (auto simp: app_key_Inr)
  have s: "strip c \<noteq> []" using assms(3) c by (simp add: valid_record_def)
  obtain u' where u': "dict_to_list u' = Inr row"
    and t': "map_of u' (Some ''title'') = Some (PStr t)"
    and c': "map_of u' (Some ''company'') = Some (PStr c)"
    using assms(1) t c by (auto simp: written_def map_of_setitem)
  have "row = map (\<lambda>f. cell_text (dict_get u' f (PStr []))) fieldnames"
    using u' by (auto simp: dict_to_list_def split: if_splits)
  then show ?thesis using t' c' k s
    by (simp add: fieldnames_def dict_get_def)
qed

lemma write_unique_written:
  assumes "write_unique env us out w = (r, out', w')"
  shows "\<exists>rows. out' = out @ rows \<and> list_all2 written (take (length rows) us) rows \<and>
           (r = Inr () \<longrightarrow> length rows = length us)"
  using assms
proof (induction us arbitrary: out w)
  case Nil
  then show ?case by simp
next
  case (Cons u us)
  show ?case
  proof (cases "\<exists>cells w1. written u cells \<and> write_unique env us (out @ [cells]) w1 = (r, out', w')")
    case True
    then obtain cells w1 where wr: "written u cells"
      and rec: "write_unique env us (out @ [cells]) w1 = (r, out', w')" by blast
    from Cons.IH [OF rec] obtain rows where
      rows: "out' = (out @ [cells]) @ rows" "list_all2 written (take (length rows) us) rows"
        "r = Inr () \<longrightarrow> length rows = length us" by blast
    have "out' = out @ (cells # rows) \<and>
          list_all2 written (take (length (cells # rows)) (u # us)) (cells # rows) \<and>
          (r = Inr () \<longrightarrow> length (cells # rows) = length (u # us))"
      using rows wr by simp
    then show ?thesis by blast
  next
    case False
    then have "out' = out \<and> r \<noteq> Inr ()"
      using Cons.prems
      by (auto simp: written_def split: if_splits sum.splits prod.splits)
    then show ?thesis by simp
  qed
qed

lemma write_unique_five:
  assumes "\<forall>row \<in> set rows. length row = 5"
  shows "write_unique env (map (row_dict fieldnames) rows) out w = (Inr (), out @ rows, w)"
  using assms
proof (induction rows arbitrary: out)
  case Nil
  then show ?case by simp
next
  case (Cons row rows)
  then obtain a b c d e where row: "row = [a, b, c, d, e]"
    using length_five [of row] by auto
  show ?case using Cons by (simp add: row five_facts)
qed

lemma dedup_scan_fresh:
  assumes "\<forall>a \<in> set apps. valid_record a \<and> (\<exists>k. app_key a = Inr k)"
      and "distinct (map app_key apps)"
      and "\<forall>a \<in> set apps. app_key a \<notin> Inr ` set (map fst U)"
  shows "dedup_scan apps U I = Inr (U @ map (\<lambda>a. (projr (app_key a), a)) apps, I)"
  using assms
proof (induction apps arbitrary: U)
  case Nil
  then show ?case by simp
next
  case (Cons a apps)
  then obtain k where k: "app_key a = Inr k" by auto
  have fresh: "k \<notin> set (map fst U)" using Cons.prems(3) k by auto
  have U1: "setitem U k a = U @ [(k, a)]" by (rule setitem_fresh [OF fresh])
  have "dedup_scan apps (U @ [(k, a)]) I =
      Inr ((U @ [(k, a)]) @ map (\<lambda>a. (projr (app_key a), a)) apps, I)"
  proof (rule Cons.IH)
    show "\<forall>a \<in> set apps. valid_record a \<and> (\<exists>k. app_key a = Inr k)" using Cons.prems(1) by simp
    show "distinct (map app_key apps)" using Cons.prems(2) by simp
    show "\<forall>b \<in> set apps. app_key b \<notin> Inr ` set (map fst (U @ [(k, a)]))"
      using Cons.prems(2,3) k by (auto simp: image_iff)
  qed
  then show ?case using Cons.prems(1) k U1 by (simp add: dedup_scan_Cons)
qed

lemma rewritten_store_is_clean:
  assumes scan: "dedup_scan apps [] [] = Inr (unique, invalid)"
      and wr: "write_unique env (map snd unique) [] w = (r', out, wx)"
  shows "(\<forall>row \<in> set out. length row = 5) \<and>
         (\<forall>a \<in> set (map (row_dict fieldnames) out). valid_record a \<and> (\<exists>k. app_key a = Inr k)) \<and>
         distinct (map app_key (map (row_dict fieldnames) out))"
proof -
  have inv: "distinct (map fst unique)" "\<forall>(k, u) \<in> set unique. app_key u = Inr k \<and> valid_record u"
    using dedup_scan_inv [OF scan] by auto
  from write_unique_written [OF wr]
  have l2: "list_all2 written (take (length out) (map snd unique)) out" by auto
  then have len: "length out \<le> length unique"
    by (auto dest!: list_all2_lengthD)
  have row: "\<exists>a b c d e. out ! i = [a, b, c, d, e] \<and> (lower a, lower b) = fst (unique ! i) \<and> strip b \<noteq> []"
    if i: "i < length out" for i
  proof -
    have iu: "i < length unique" using i len by simp
    have w: "written (snd (unique ! i)) (out ! i)"
      using list_all2_nthD2 [OF l2 i] i iu by simp
    have "unique ! i \<in> set unique" using iu by simp
    then have "app_key (snd (unique ! i)) = Inr (fst (unique ! i)) \<and> valid_record (snd (unique ! i))"
      using inv(2) by (auto simp: case_prod_beta)
    then show ?thesis using written_row [OF w] by blast
  qed
  have five: "\<forall>row \<in> set out. length row = 5"
  proof
    fix row assume "row \<in> set out"
    then obtain i where "i < length out" "out ! i = row" by (auto simp: in_set_conv_nth)
    then show "length row = 5" using row [of i] by auto
  qed
  have key: "app_key (row_dict fieldnames (out ! i)) = Inr (fst (unique ! i)) \<and>
             valid_record (row_dict fieldnames (out ! i))" if i: "i < length out" for i
    using row [OF i] by (auto simp: five_facts)
  have ok: "\<forall>a \<in> set (map (row_dict fieldnames) out). valid_record a \<and> (\<exists>k. app_key a = Inr k)"
  proof
    fix a assume "a \<in> set (map (row_dict fieldnames) out)"
    then obtain i where "i < length out" "a = row_dict fieldnames (out ! i)"
      by (auto simp: in_set_conv_nth)
    then show "valid_record a \<and> (\<exists>k. app_key a = Inr k)" using key [of i] by auto
  qed
  have "map app_key (map (row_dict fieldnames) out) = map Inr (take (length out) (map fst unique))"
    by (rule nth_equalityI) (use len key in auto)
  moreover have "distinct (map Inr (take (length out) (map fst unique)) :: (exn + identity) list)"
    using inv(1) by (simp add: distinct_map)
  ultimately have "distinct (map app_key (map (row_dict fieldnames) out))" by simp
  then show ?thesis using five ok by blast
qed

lemma second_run_is_noop:
  assumes scan: "dedup_scan apps [] [] = Inr (unique, invalid)"
      and wr: "write_unique env (map snd unique) [] w = (r', out, wx)"
      and rd: "\<not> csv_read_fails env" and wt: "\<not> csv_write_fails env"
  shows "remove_duplicates env (wx\<lparr>csv_file := Some (fieldnames # out), csv_closed := True\<rparr>) =
           (True, wx\<lparr>csv_file := Some (fieldnames # out), csv_closed := True\<rparr>) \<and>
         get_all_applications env (wx\<lparr>csv_file := Some (fieldnames # out), csv_closed := True\<rparr>) =
           map (row_dict fieldnames) out \<and>
         (\<exists>u. dedup_scan (map (row_dict fieldnames) out) [] [] = Inr (u, []) \<and>
              map snd u = map (row_dict fieldnames) out)"
proof -
  from rewritten_store_is_clean [OF scan wr]
  have five: "\<forall>row \<in> set out. length row = 5"
    and ok: "\<forall>a \<in> set (map (row_dict fieldnames) out). valid_record a \<and> (\<exists>k. app_key a = Inr k)"
    and dist: "distinct (map app_key (map (row_dict fieldnames) out))" by auto
  let ?w1 = "wx\<lparr>csv_file := Some (fieldnames # out), csv_closed := True\<rparr>"
  let ?apps1 = "map (row_dict fieldnames) out"
  have "filter (\<lambda>r. r \<noteq> []) out = out" using five by (auto simp: filter_id_conv)
  then have apps1: "get_all_applications env ?w1 = ?apps1"
    using rd by (simp add: get_all_applications_def get_all_applications_body_def)
  have scan1: "dedup_scan ?apps1 [] [] = Inr ([] @ map (\<lambda>a. (projr (app_key a), a)) ?apps1, [])"
    by (rule dedup_scan_fresh [OF ok dist]) simp
  have snd1: "map snd (map (\<lambda>a. (projr (app_key a), a)) ?apps1) = ?apps1"
    by (simp add: comp_def)
  have wr1: "write_unique env ?apps1 [] ?w1 = (Inr (), [] @ out, ?w1)"
    by (rule write_unique_five [OF five])
  have "remove_duplicates_body env ?w1 = (Inr True, ?w1)"
    using apps1 scan1 snd1 wr1 wt
    by (simp add: remove_duplicates_body_def comp_def del: map_map)
  then have "remove_duplicates env ?w1 = (True, ?w1)"
    by (simp add: remove_duplicates_def)
  then show ?thesis using apps1 scan1 snd1 by auto
qed

lemma remove_duplicates_body_cases:
  assumes "remove_duplicates_body env w = (r, w1)"
  shows "(w1 = w \<and> (r = Inr True \<longrightarrow> get_all_applications env w = [])) \<or>
         (\<not> csv_read_fails env \<and> \<not> csv_write_fails env \<and>
          (\<exists>unique invalid r' out wx.
             dedup_scan (get_all_applications env w) [] [] = Inr (unique, invalid) \<and>
             write_unique env (map snd unique) [] w = (r', out, wx) \<and>
             w1 = wx\<lparr>csv_file := Some (fieldnames # out), csv_closed := True\<rparr>))"
proof (cases "get_all_applications env w = []")
  case True
  then show ?thesis using assms by (simp add: remove_duplicates_body_def)
next
  case False
  then have rd: "\<not> csv_read_fails env"
    by (auto simp: get_all_applications_def get_all_applications_body_def)
  show ?thesis
  proof (cases "dedup_scan (get_all_applications env w) [] []")
    case (Inl e)
    then show ?thesis using assms False by (auto simp: remove_duplicates_body_def)
  next
    case (Inr p)
    obtain unique invalid where p: "p = (unique, invalid)" by (cases p)
    show ?thesis
    proof (cases "csv_write_fails env")
      case True
      then show ?thesis using assms False Inr p by (auto simp: remove_duplicates_body_def)
    next
      case wt: False
      obtain r' out wx where wr: "write_unique env (map snd unique) [] w = (r', out, wx)"
        by (cases "write_unique env (map snd unique) [] w") auto
      have "w1 = wx\<lparr>csv_file := Some (fieldnames # out), csv_closed := True\<rparr>"
        using assms False Inr p wt wr
        by (auto simp: remove_duplicates_body_def split: sum.splits)
      then show ?thesis using rd wt Inr p wr by blast
    qed
  qed
qed

text \<open>
  Claim C3. \<open>remove_duplicates\<close> is idempotent, for every environment and every world:
  a second run leaves the world of the first run as it is (the same store file, notes
  and calls). When the first run reports success, the second does too, and its first
  loop, run on the records of the rewritten store, puts no record aside as invalid and
  keeps every record under a key of its own: the unique records are the records read,
  in their order.
\<close>

theorem remove_duplicates_idempotent:
  "snd (remove_duplicates env (snd (remove_duplicates env w))) = snd (remove_duplicates env w) \<and>
   (fst (remove_duplicates env w) \<longrightarrow>
      fst (remove_duplicates env (snd (remove_duplicates env w))) \<and>
      (\<exists>unique. dedup_scan (get_all_applications env (snd (remove_duplicates env w))) [] []
                   = Inr (unique, []) \<and>
                map snd unique = get_all_applications env (snd (remove_duplicates env w))))"
proof -
  obtain r w1 where b: "remove_duplicates_body env w = (r, w1)"
    by (cases "remove_duplicates_body env w")
  have s: "snd (remove_duplicates env w) = w1"
    and f: "fst (remove_duplicates env w) = (r = Inr True)"
    using b by (auto simp: remove_duplicates_def split: sum.splits)
  from remove_duplicates_body_cases [OF b] show ?thesis
  proof (elim disjE conjE exE)
    assume same: "w1 = w" and emp: "r = Inr True \<longrightarrow> get_all_applications env w = []"
    show ?thesis unfolding s unfolding same using f emp s same by auto
  next
    fix unique invalid r' out wx
    assume rd: "\<not> csv_read_fails env" and wt: "\<not> csv_write_fails env"
      and scan: "dedup_scan (get_all_applications env w) [] [] = Inr (unique, invalid)"
      and wr: "write_unique env (map snd unique) [] w = (r', out, wx)"
      and w1: "w1 = wx\<lparr>csv_file := Some (fieldnames # out), csv_closed := True\<rparr>"
    from second_run_is_noop [OF scan wr rd wt] show ?thesis
      unfolding s w1 by auto
  qed
qed

lemma store_dups_run:
  "fst (remove_duplicates env_ok store_dups) \<and>
   csv_file (snd (remove_duplicates env_ok store_dups)) =
     Some [fieldnames, [''a'', ''CO'', ''Interview'', ''2024-02-01'', ''seen'']]"
  by (simp add: store_dups_def eval_defs dedup_scan.simps truthy.simps)

text \<open>Claim C3 at a store with a duplicate and a blank company: the first run leaves one
  line, and the second run succeeds and returns the world it was given.\<close>

theorem remove_duplicates_idempotent_witness:
  "fst (remove_duplicates env_ok store_dups) \<and>
   csv_file (snd (remove_duplicates env_ok store_dups)) =
     Some [fieldnames, [''a'', ''CO'', ''Interview'', ''2024-02-01'', ''seen'']] \<and>
   remove_duplicates env_ok (snd (remove_duplicates env_ok store_dups)) =
     (True, snd (remove_duplicates env_ok store_dups))"
  using remove_duplicates_idempotent [of env_ok store_dups] store_dups_run
  by (auto simp: prod_eq_iff)

subsection \<open>The record that stays\<close>











section \<open>Research for every company of the store\<close>










section \<open>An exception inside the duplicate check\<close>

lemma get_company_research_csv_closed:
  "csv_closed (snd (get_company_research env w c)) = csv_closed w"
  by (auto simp: get_company_research_def get_company_research_body_def generate_and_save_def
      Let_def split: pyval.splits option.splits prod.splits sum.splits if_splits)

lemma get_company_research_csv_appends:
  "csv_appends (snd (get_company_research env w c)) = csv_appends w"
  by (auto simp: get_company_research_def get_company_research_body_def generate_and_save_def
      Let_def split: pyval.splits option.splits prod.splits sum.splits if_splits)

lemma get_company_research_tail_closed:
  "tail_closed (snd (get_company_research env w c)) = tail_closed w"
  by (simp add: tail_closed_def get_company_research_csv_file get_company_research_csv_closed)

lemma append_row_cases:
  assumes "append_row env w d = (r, w')"
  shows "(isl r \<and> store_lines w' = store_lines w \<and> csv_appends w' = csv_appends w \<and>
          (csv_append_fails env \<or> isl (dict_to_list d))) \<or>
         (r = Inr True \<and> \<not> csv_append_fails env \<and>
          (\<exists>cells. dict_to_list d = Inr cells \<and> csv_appends w' = csv_appends w @ [cells] \<and>
             (tail_closed w \<longrightarrow> store_lines w' = store_lines w @ [cells])))"
  using assms by (auto simp: append_row_def store_lines_def split: if_splits sum.splits)

lemma save_to_csv_appends:
  assumes req: "\<forall>f \<in> set required_fields. has_key data f"
      and co: "getitem data ''company'' = Inr (PStr c)" and ne: "strip c \<noteq> []"
      and nodup: "\<not> is_duplicate env w data"
      and ap: "\<not> csv_append_fails env"
      and d: "dict_to_list (setitem data (Some ''research'')
                (PStr (fst (get_company_research env w (PStr c))))) = Inr cells"
  shows "fst (save_to_csv env w data) = True \<and>
         csv_appends (snd (save_to_csv env w data)) = csv_appends w @ [cells] \<and>
         (tail_closed w \<longrightarrow>
            store_lines (snd (save_to_csv env w data)) = store_lines w @ [cells])"
proof -
  have cne: "c \<noteq> []" using ne strip_Nil by auto
  obtain r w1 where g: "get_company_research env w (PStr c) = (r, w1)"
    by (cases "get_company_research env w (PStr c)")
  have sl: "store_lines w1 = store_lines w" "csv_appends w1 = csv_appends w"
      "tail_closed w1 = tail_closed w"
    using get_company_research_store_lines [of env w "PStr c"]
      get_company_research_csv_appends [of env w "PStr c"]
      get_company_research_tail_closed [of env w "PStr c"] g by simp_all
  obtain ra w' where a: "append_row env w1 (setitem data (Some ''research'') (PStr r)) = (ra, w')"
    by (cases "append_row env w1 (setitem data (Some ''research'') (PStr r))")
  have body: "save_to_csv_body env w data = (ra, w')"
    using req co ne nodup cne g a by (simp add: save_to_csv_body_def)
  have d': "dict_to_list (setitem data (Some ''research'') (PStr r)) = Inr cells"
    using d g by simp
  from append_row_cases [OF a] d' ap
  have res: "ra = Inr True" "csv_appends w' = csv_appends w1 @ [cells]"
    "tail_closed w1 \<longrightarrow> store_lines w' = store_lines w1 @ [cells]"
    by auto
  show ?thesis using res sl by (simp add: save_to_csv_def body)
qed

text \<open>
  Claim C10. When the scan of \<open>_is_duplicate\<close> raises, or the read of the store fails,
  \<open>_is_duplicate\<close> answers \<open>False\<close>; \<open>save_to_csv\<close> then goes on, and for a candidate
  with the required fields and a non-blank company whose row the writer accepts, it
  returns \<open>True\<close> and has written that row at the end of the store file. When the file
  was closed (it ended with a complete line), the row is a new last line of the store.
\<close>

theorem duplicate_check_error_appends:
  assumes "duplicate_scan (get_all_applications env w) data = Inl e \<or>
           get_all_applications_body env w = Inl e"
  shows "\<not> is_duplicate env w data \<and>
    ((\<forall>f \<in> set required_fields. has_key data f) \<and> getitem data ''company'' = Inr (PStr c) \<and>
      strip c \<noteq> [] \<and> \<not> csv_append_fails env \<and>
      dict_to_list (setitem data (Some ''research'')
        (PStr (fst (get_company_research env w (PStr c))))) = Inr cells
     \<longrightarrow> fst (save_to_csv env w data) = True \<and>
         csv_appends (snd (save_to_csv env w data)) = csv_appends w @ [cells] \<and>
         (tail_closed w \<longrightarrow>
            store_lines (snd (save_to_csv env w data)) = store_lines w @ [cells]))"
proof -
  have nodup: "\<not> is_duplicate env w data"
    using assms by (auto simp: is_duplicate_def get_all_applications_def)
  then show ?thesis using save_to_csv_appends [of data c env w cells] by blast
qed

text \<open>Claim C10 at a store whose first line has a title only: the scan raises on it, and
  the candidate is appended although the second line has its identity.\<close>

theorem duplicate_check_error_appends_witness:
  "duplicate_scan (get_all_applications env_ok store_short_line)
      (candidate ''Engineer'' ''Acme'' ''Viewed'' ''2024-01-05'') = Inl AttributeError \<and>
   \<not> is_duplicate env_ok store_short_line (candidate ''Engineer'' ''Acme'' ''Viewed'' ''2024-01-05'') \<and>
   tail_closed store_short_line \<and>
   fst (save_to_csv env_ok store_short_line
      (candidate ''Engineer'' ''Acme'' ''Viewed'' ''2024-01-05'')) = True \<and>
   csv_appends (snd (save_to_csv env_ok store_short_line
      (candidate ''Engineer'' ''Acme'' ''Viewed'' ''2024-01-05''))) =
     [[''Engineer'', ''Acme'', ''Viewed'', ''2024-01-05'', ''About Acme'']] \<and>
   store_lines (snd (save_to_csv env_ok store_short_line
      (candidate ''Engineer'' ''Acme'' ''Viewed'' ''2024-01-05''))) =
     [fieldnames, [''engineer''], [''Engineer'', ''Acme'', ''Submitted'', ''2024-01-01'', ''''],
      [''Engineer'', ''Acme'', ''Viewed'', ''2024-01-05'', ''About Acme'']]"
proof -
  let ?d = "candidate ''Engineer'' ''Acme'' ''Viewed'' ''2024-01-05''"
  have scan: "duplicate_scan (get_all_applications env_ok store_short_line) ?d = Inl AttributeError"
    by (simp add: store_short_line_def eval_defs)
  have cells: "dict_to_list (setitem ?d (Some ''research'')
        (PStr (fst (get_company_research env_ok store_short_line (PStr ''Acme'')))))
     = Inr [''Engineer'', ''Acme'', ''Viewed'', ''2024-01-05'', ''About Acme'']"
    by (simp add: store_short_line_def eval_defs)
  have pre: "(\<forall>f \<in> set required_fields. has_key ?d f) \<and>
     getitem ?d ''company'' = Inr (PStr ''Acme'') \<and>
     strip ''Acme'' \<noteq> [] \<and> \<not> csv_append_fails env_ok"
    by (simp add: eval_defs)
  have sl: "store_lines store_short_line =
      [fieldnames, [''engineer''], [''Engineer'', ''Acme'', ''Submitted'', ''2024-01-01'', '''']]"
    "csv_appends store_short_line = []" "tail_closed store_short_line"
    by (simp_all add: store_lines_def store_of_def store_short_line_def tail_closed_def)
  show ?thesis
    using duplicate_check_error_appends [of env_ok store_short_line ?d AttributeError "''Acme''"
        "[''Engineer'', ''Acme'', ''Viewed'', ''2024-01-05'', ''About Acme'']"]
      scan cells pre sl by simp
qed

section \<open>Exceptions during a save\<close>








section \<open>Exceptions and the handlers\<close>









section \<open>The research cache\<close>

text \<open>Claim C4 as stated lets the presence of the file decide; a note file that holds
  the three header lines and no body does not stop the generator.\<close>

theorem cached_note_without_body_counterexample:
  "research_dir ((store_of [])\<lparr>research_dir := (\<lambda>f. None)(''Acme'' \<mapsto> note_text env_ok ''Acme'' [])\<rparr>) ''Acme''
     = Some (note_text env_ok ''Acme'' []) \<and>
   generator_calls (snd (get_company_research env_ok
     ((store_of [])\<lparr>research_dir := (\<lambda>f. None)(''Acme'' \<mapsto> note_text env_ok ''Acme'' [])\<rparr>) (PStr ''Acme'')))
     = [''Acme'']"
  by (simp add: eval_defs)

text \<open>
  Claim C4, amended. For a company name that is not blank, when its note file exists, can
  be read and has more than three lines as text mode reads them (a line ends at LF, at
  CR and at CR LF, each read as LF), \<open>_get_company_research\<close> returns the lines after
  the third, joined and trimmed, whatever they contain; nothing changes but the log of
  the lookup: the generator is not called and no file is written.
\<close>

theorem cached_note_blocks_generation:
  assumes "strip name \<noteq> []"
      and "research_dir w (safe_filename name) = Some text"
      and "length (readlines (universal_newlines text)) > 3"
      and "\<not> note_read_fails env (safe_filename name)"
  shows "get_company_research env w (PStr name) =
           (strip (concat (drop 3 (readlines (universal_newlines text)))),
            w\<lparr>research_lookups := research_lookups w @ [PStr name]\<rparr>)"
proof -
  have "name \<noteq> []" using assms(1) strip_Nil by auto
  then show ?thesis
    using assms by (simp add: get_company_research_def get_company_research_body_def)
qed

text \<open>Claim C4, amended, at a cached note for Acme whose body has three lines, ended by
  CR LF, by CR and by nothing, with a generator that would answer with another text:
  the body comes back with LF at both line ends.\<close>

theorem cached_note_blocks_generation_witness:
  "strip ''Acme'' \<noteq> [] \<and>
   research_dir store_note (safe_filename ''Acme'') = Some note_crlf \<and>
   length (readlines (universal_newlines note_crlf)) = 6 \<and>
   get_company_research (env_ok\<lparr>gen_research := (\<lambda>n c. Some ''Newer text'')\<rparr>) store_note (PStr ''Acme'') =
     (''line1'' @ [CHR 0x0A] @ ''line2'' @ [CHR 0x0A] @ ''line3'',
      store_note\<lparr>research_lookups := [PStr ''Acme'']\<rparr>)"
proof -
  have a: "strip ''Acme'' \<noteq> []" by (simp add: strip_def isspace_def)
  have b: "research_dir store_note (safe_filename ''Acme'') = Some note_crlf"
    by (simp add: safe_filename_def store_note_def)
  have c: "readlines (universal_newlines note_crlf) =
      [''Company Research for Acme'' @ [CHR 0x0A], ''Date Generated: 2024-03-01 09:00:00'' @ [CHR 0x0A],
       [CHR 0x0A], ''line1'' @ [CHR 0x0A], ''line2'' @ [CHR 0x0A], ''line3'']"
    by (simp add: note_crlf_def)
  have d: "\<not> note_read_fails (env_ok\<lparr>gen_research := (\<lambda>n c. Some ''Newer text'')\<rparr>) (safe_filename ''Acme'')"
    by (simp add: env_ok_def)
  have e: "strip (''line1'' @ [CHR 0x0A] @ ''line2'' @ [CHR 0x0A] @ ''line3'') =
      ''line1'' @ [CHR 0x0A] @ ''line2'' @ [CHR 0x0A] @ ''line3''"
    by (simp add: strip_def isspace_def)
  have f: "research_lookups store_note = []"
    by (simp add: store_of_def store_note_def)
  show ?thesis
    using a b c d e f cached_note_blocks_generation [of "''Acme''" store_note note_crlf
      "env_ok\<lparr>gen_research := (\<lambda>n c. Some ''Newer text'')\<rparr>"]
    by simp
qed

end
